theory Spec2Isabelle
  imports Complex_Main "HOL-Library.AList"
begin

section \<open>The bot manager of bot-control.js\<close>

text \<open>
  The module keeps one \<open>BotManager\<close> whose fields are JavaScript \<open>Map\<close>s keyed by the bot
  id. The model passes the manager explicitly. Two kinds of objects are shared by reference
  in the source and therefore live in explicit stores here: the bot objects returned by
  \<open>mineflayer.createBot\<close> (their \<open>manuallyStopped\<close> flag is written by \<open>stopBot\<close> and read
  by the event handlers that closed over the object) and the timers of the runtime
  (\<open>setTimeout\<close>, \<open>setInterval\<close>, \<open>clearTimeout\<close>, \<open>clearInterval\<close>).
  The maps that the source iterates with \<open>forEach\<close> (\<open>bots\<close>, \<open>botStatus\<close>) are association
  lists in insertion order; the others are partial functions.
\<close>

subsection \<open>Values and configuration\<close>

type_synonym botId = string
type_synonym ref = nat

datatype jsval = Undefined | Null | Str string | Obj "(string \<times> jsval) list"

text \<open>A status object: its own properties.\<close>

type_synonym status = "string \<rightharpoonup> jsval"

record botConfig =
  cfg_id :: botId
  cfg_name :: string
  username :: string
  password :: "string option"
  enabled :: "bool option"

text \<open>\<open>botConfig.enabled !== false\<close>: an absent flag counts as enabled.\<close>

definition autoReconnect :: "botConfig \<Rightarrow> bool" where
  "autoReconnect cfg = (enabled cfg \<noteq> Some False)"

text \<open>\<open>if (botConfig.password)\<close>: an absent or empty password is falsy.\<close>

definition hasPassword :: "botConfig \<Rightarrow> bool" where
  "hasPassword cfg = (case password cfg of None \<Rightarrow> False | Some p \<Rightarrow> p \<noteq> [])"

subsection \<open>Log lines\<close>

datatype level = Info | Warn | Err | Message

datatype logmsg =
    AlreadyRunning
  | Starting string string
  | Spawned
  | AuthRegisterSent
  | AuthLoginSent
  | ClientText string
  | KickedLog string
  | ErrorLog string
  | Disconnected string
  | FailedCreate string
  | DisabledNoReconnect
  | StoppedNoReconnect
  | Scheduled int nat
  | AttemptReconnect
  | Stopping
  | ShuttingDown
  | Sent string
  | SendFailed string
  | QueuedAfterFailure nat
  | QueuedNotConnected nat
  | Processing nat
  | SentQueued string
  | QueuedSendFailed string
  | KeepAliveError string

type_synonym logEntry = "botId \<times> level \<times> logmsg"

subsection \<open>Bot objects and timers\<close>

text \<open>
  A bot object as far as the manager uses it: the \<open>botId\<close> and \<open>botConfig\<close> the handlers
  closed over, the \<open>manuallyStopped\<close> flag, and whether the \<open>once('spawn')\<close> listener is
  still registered.
\<close>

record botObj =
  botId :: botId
  botConfig :: botConfig
  manuallyStopped :: bool
  spawnListener :: bool

text \<open>The callback of a timer, with the variables it closed over.\<close>

datatype timerAction =
    TReconnect botId botConfig
  | TKeepAlive botId ref
  | TQueued botId string
  | TAuthRegister botId ref botConfig
  | TAuthLogin botId ref botConfig
  | TControlOff ref string

record timer =
  delay :: rat
  action :: timerAction

subsection \<open>What the external client does when asked\<close>

datatype createOutcome = Created | CreateThrows string

datatype chatOutcome = NoChat | ChatThrows string | ChatOk

datatype quitOutcome = QuitReturns | QuitThrows string

text \<open>
  One tick of the keep-alive interval: the bot has no entity; or the movement fails before
  any nested timeout is set; or the bot moves (and possibly jumps), after which a later
  call may still throw.
\<close>

datatype keepOutcome = NoEntity | FailsEarly string | Moves bool "string option"

record outcomes =
  createResult :: createOutcome
  chatResult :: chatOutcome
  keepResult :: keepOutcome

subsection \<open>The manager\<close>

record manager =
  bots :: "(botId \<times> ref) list"
  botData :: "botId \<rightharpoonup> botConfig"
  botStatus :: "(botId \<times> status) list"
  keepAliveTimers :: "botId \<rightharpoonup> ref"
  reconnectTimers :: "botId \<rightharpoonup> ref"
  messageQueue :: "botId \<rightharpoonup> string list"
  reconnectAttempts :: "botId \<rightharpoonup> nat"
  heap :: "ref \<rightharpoonup> botObj"
  nextBot :: ref
  timers :: "ref \<rightharpoonup> timer"
  nextTimer :: ref
  console :: "logEntry list"

definition newManager :: manager where
  "newManager = \<lparr> bots = [], botData = Map.empty, botStatus = [],
     keepAliveTimers = Map.empty, reconnectTimers = Map.empty,
     messageQueue = Map.empty, reconnectAttempts = Map.empty,
     heap = Map.empty, nextBot = 0, timers = Map.empty, nextTimer = 0, console = [] \<rparr>"

definition loadedStatus :: status where
  "loadedStatus = [''status'' \<mapsto> Str ''offline'', ''connectedSince'' \<mapsto> Null,
     ''lastError'' \<mapsto> Null, ''stats'' \<mapsto> Obj []]"

definition loadBot :: "botConfig \<Rightarrow> manager \<Rightarrow> manager" where
  "loadBot cfg m = m\<lparr> botData := (botData m)(cfg_id cfg \<mapsto> cfg),
     botStatus := AList.update (cfg_id cfg) loadedStatus (botStatus m),
     messageQueue := (messageQueue m)(cfg_id cfg \<mapsto> []),
     reconnectAttempts := (reconnectAttempts m)(cfg_id cfg \<mapsto> 0) \<rparr>"

definition loadBots :: "botConfig list \<Rightarrow> manager \<Rightarrow> manager" where
  "loadBots bs m = fold loadBot bs m"

subsection \<open>Logging, status, timers\<close>

definition emitLog :: "botId \<Rightarrow> level \<Rightarrow> logmsg \<Rightarrow> manager \<Rightarrow> manager" where
  "emitLog b l msg m = m\<lparr> console := console m @ [(b, l, msg)] \<rparr>"

definition defaultStatus :: status where
  "defaultStatus = [''status'' \<mapsto> Str ''offline'', ''stats'' \<mapsto> Obj []]"

text \<open>\<open>{ ...currentStatus, ...updates }\<close>: the own properties of both, the patch winning.\<close>

definition updateStatus :: "botId \<Rightarrow> status \<Rightarrow> manager \<Rightarrow> manager" where
  "updateStatus b updates m =
     (let currentStatus = (case map_of (botStatus m) b of Some s \<Rightarrow> s | None \<Rightarrow> defaultStatus);
          newStatus = currentStatus ++ updates
      in m\<lparr> botStatus := AList.update b newStatus (botStatus m) \<rparr>)"

definition setTimer :: "rat \<Rightarrow> timerAction \<Rightarrow> manager \<Rightarrow> manager" where
  "setTimer d a m = m\<lparr> timers := (timers m)(nextTimer m \<mapsto> \<lparr> delay = d, action = a \<rparr>),
                       nextTimer := Suc (nextTimer m) \<rparr>"

definition clearTimer :: "ref \<Rightarrow> manager \<Rightarrow> manager" where
  "clearTimer t m = m\<lparr> timers := (timers m)(t := None) \<rparr>"

subsection \<open>Reconnect policy\<close>

text \<open>
  \<open>Math.min(300000, 5000 * Math.pow(1.5, attempts))\<close>. The value is computed in double
  precision; for \<open>attempts \<le> 10\<close> the product \<open>5000 * 3^n / 2^n\<close> is a dyadic rational with a
  numerator below \<open>2^53\<close> and so exact, and from 11 attempts on the product exceeds 300000
  (also when it overflows to infinity), so the minimum is 300000. The rational function
  below therefore agrees with the double computation at every attempt count.
\<close>

definition reconnectDelay :: "nat \<Rightarrow> rat" where
  "reconnectDelay attempts = min 300000 (5000 * (3 / 2) ^ attempts)"

text \<open>\<open>Math.round\<close>: to the nearest integer, halves up.\<close>

definition mathRound :: "rat \<Rightarrow> int" where
  "mathRound x = \<lfloor>x + 1 / 2\<rfloor>"

subsection \<open>cleanupBot, scheduleReconnect, startBot, stopBot, shutdownAll\<close>

text \<open>
  The lines \<open>const reconnectTimer = this.reconnectTimers.get(botId); if (reconnectTimer)
  { clearTimeout(reconnectTimer); this.reconnectTimers.delete(botId); }\<close>, which open
  \<open>startBot\<close> and \<open>stopBot\<close> and close \<open>cleanupBot\<close>.
\<close>

definition cancelReconnect :: "botId \<Rightarrow> manager \<Rightarrow> manager" where
  "cancelReconnect b m =
     (case reconnectTimers m b of
        Some t \<Rightarrow> (clearTimer t m)\<lparr> reconnectTimers := (reconnectTimers m)(b := None) \<rparr>
      | None \<Rightarrow> m)"

definition cleanupBot :: "botId \<Rightarrow> bool \<Rightarrow> manager \<Rightarrow> manager" where
  "cleanupBot b scheduleReconnectFlag m =
     (let m1 = m\<lparr> bots := AList.delete b (bots m) \<rparr>;
          m2 = (case keepAliveTimers m1 b of
                  Some t \<Rightarrow> (clearTimer t m1)\<lparr> keepAliveTimers := (keepAliveTimers m1)(b := None) \<rparr>
                | None \<Rightarrow> m1)
      in if \<not> scheduleReconnectFlag then cancelReconnect b m2 else m2)"

text \<open>\<open>bot && bot.manuallyStopped\<close> for the bot currently registered under the id.\<close>

definition registeredStopped :: "manager \<Rightarrow> botId \<Rightarrow> bool" where
  "registeredStopped m b =
     (case map_of (bots m) b of
        None \<Rightarrow> False
      | Some r \<Rightarrow> (case heap m r of None \<Rightarrow> False | Some obj \<Rightarrow> manuallyStopped obj))"

definition scheduleReconnect :: "botId \<Rightarrow> botConfig option \<Rightarrow> manager \<Rightarrow> manager" where
  "scheduleReconnect b cfgOpt m =
     (case cfgOpt of
        None \<Rightarrow> emitLog b Info DisabledNoReconnect m
      | Some cfg \<Rightarrow>
          if enabled cfg = Some False then emitLog b Info DisabledNoReconnect m
          else if registeredStopped m b then emitLog b Info StoppedNoReconnect m
          else
            (let m1 = (case reconnectTimers m b of Some t \<Rightarrow> clearTimer t m | None \<Rightarrow> m);
                 attempts = (case reconnectAttempts m1 b of Some n \<Rightarrow> n | None \<Rightarrow> 0) + 1;
                 m2 = m1\<lparr> reconnectAttempts := (reconnectAttempts m1)(b \<mapsto> attempts) \<rparr>;
                 d = reconnectDelay attempts;
                 m3 = emitLog b Info (Scheduled (mathRound (d / 1000)) attempts) m2;
                 t = nextTimer m3;
                 m4 = setTimer d (TReconnect b cfg) m3
             in m4\<lparr> reconnectTimers := (reconnectTimers m4)(b \<mapsto> t) \<rparr>))"

definition startBot :: "botConfig \<Rightarrow> createOutcome \<Rightarrow> manager \<Rightarrow> manager" where
  "startBot cfg outcome m =
     (let b = cfg_id cfg;
          m1 = cancelReconnect b m
      in if map_of (bots m1) b \<noteq> None then emitLog b Warn AlreadyRunning m1
         else
           (let m2 = emitLog b Info (Starting (cfg_name cfg) (username cfg)) m1;
                m3 = updateStatus b [''status'' \<mapsto> Str ''connecting''] m2
            in case outcome of
                 Created \<Rightarrow>
                   (let r = nextBot m3;
                        obj = \<lparr> botId = b, botConfig = cfg, manuallyStopped = False,
                                spawnListener = True \<rparr>
                    in m3\<lparr> heap := (heap m3)(r \<mapsto> obj), nextBot := Suc r,
                           bots := AList.update b r (bots m3),
                           reconnectAttempts := (reconnectAttempts m3)(b \<mapsto> 0) \<rparr>)
               | CreateThrows msg \<Rightarrow>
                   (let m4 = emitLog b Err (FailedCreate msg) m3;
                        m5 = updateStatus b [''status'' \<mapsto> Str ''error'', ''lastError'' \<mapsto> Str msg] m4
                    in if autoReconnect cfg then scheduleReconnect b (Some cfg) m5 else m5)))"

definition setStopped :: "ref \<Rightarrow> manager \<Rightarrow> manager" where
  "setStopped r m =
     (case heap m r of
        None \<Rightarrow> m
      | Some obj \<Rightarrow> m\<lparr> heap := (heap m)(r \<mapsto> obj\<lparr> manuallyStopped := True \<rparr>) \<rparr>)"

text \<open>
  \<open>stopBot\<close> calls \<open>bot.quit\<close> outside any \<open>try\<close>. When \<open>quit\<close> throws, the exception
  leaves \<open>stopBot\<close> after the flag is set, \<open>cleanupBot\<close> does not run and the bot object
  stays registered. The first component of the result is the message of that exception,
  if there is one.
\<close>

definition stopBot :: "botId \<Rightarrow> quitOutcome \<Rightarrow> manager \<Rightarrow> string option \<times> manager" where
  "stopBot b outcome m =
     (let registered = map_of (bots m) b;
          m1 = cancelReconnect b m;
          m2 = m1\<lparr> reconnectAttempts := (reconnectAttempts m1)(b \<mapsto> 0) \<rparr>
      in case registered of
           Some r \<Rightarrow>
             (let m3 = setStopped r (emitLog b Info Stopping m2)
              in case outcome of
                   QuitReturns \<Rightarrow> (None, cleanupBot b False m3)
                 | QuitThrows e \<Rightarrow> (Some e, m3))
         | None \<Rightarrow> (None, updateStatus b [''status'' \<mapsto> Str ''offline''] m2))"

text \<open>
  \<open>shutdownAll\<close> wraps \<open>bot.quit\<close> in \<open>try\<close> with an empty \<open>catch\<close>, so \<open>cleanupBot\<close> runs
  whether or not \<open>quit\<close> throws.
\<close>

definition shutdownAll :: "manager \<Rightarrow> manager" where
  "shutdownAll m =
     (let m1 = emitLog ''system'' Info ShuttingDown m;
          m2 = fold (\<lambda>b. cleanupBot b False) (map fst (bots m1)) m1
      in m2\<lparr> bots := [] \<rparr>)"

subsection \<open>Messages and the outbound queue\<close>

text \<open>\<open>this.messageQueue.get(botId) || []\<close>.\<close>

definition getQueue :: "manager \<Rightarrow> botId \<Rightarrow> string list" where
  "getQueue m b = (case messageQueue m b of Some q \<Rightarrow> q | None \<Rightarrow> [])"

text \<open>
  \<open>sendMessage\<close> returns \<open>true\<close> when the message was handed to the client and \<open>false\<close>
  when it was queued. The guard \<open>bot && bot.chat\<close> asks for a registered bot object that
  has a \<open>chat\<close> method; what \<open>bot.chat\<close> does is the client's business (\<open>chatOutcome\<close>).
\<close>

definition sendMessage :: "botId \<Rightarrow> string \<Rightarrow> chatOutcome \<Rightarrow> manager \<Rightarrow> bool \<times> manager" where
  "sendMessage b message outcome m =
     (if map_of (bots m) b \<noteq> None \<and> outcome \<noteq> NoChat
      then (case outcome of
              ChatThrows e \<Rightarrow>
                (let m1 = emitLog b Err (SendFailed e) m;
                     queue = getQueue m1 b @ [message];
                     m2 = m1\<lparr> messageQueue := (messageQueue m1)(b \<mapsto> queue) \<rparr>
                 in (False, emitLog b Info (QueuedAfterFailure (length queue)) m2))
            | _ \<Rightarrow> (True, emitLog b Info (Sent message) m))
      else (let queue = getQueue m b @ [message];
                m1 = m\<lparr> messageQueue := (messageQueue m)(b \<mapsto> queue) \<rparr>
            in (False, emitLog b Info (QueuedNotConnected (length queue)) m1)))"

definition processMessageQueue :: "botId \<Rightarrow> manager \<Rightarrow> manager" where
  "processMessageQueue b m =
     (let queue = getQueue m b
      in if queue = [] then m
         else (let m1 = emitLog b Info (Processing (length queue)) m;
                   m2 = fold (\<lambda>(index, message). setTimer (1000 * of_nat index) (TQueued b message))
                          (enumerate 0 queue) m1
               in m2\<lparr> messageQueue := (messageQueue m2)(b \<mapsto> []) \<rparr>))"

subsection \<open>Status queries\<close>

definition getBotStatus :: "manager \<Rightarrow> botId \<Rightarrow> status" where
  "getBotStatus m b =
     (case map_of (botStatus m) b of Some s \<Rightarrow> s | None \<Rightarrow> [''status'' \<mapsto> Str ''offline''])"

text \<open>
  \<open>statuses[botId] = status\<close> on a plain object \<open>{}\<close>. The result is modelled by its own
  properties. For every key but one the assignment creates or overwrites the own property;
  for the key \<open>__proto__\<close> it runs the setter inherited from \<open>Object.prototype\<close>, which
  replaces the prototype of the object (the status is an object) and adds no own property.
\<close>

definition objAssign :: "string \<Rightarrow> 'v \<Rightarrow> (string \<times> 'v) list \<Rightarrow> (string \<times> 'v) list" where
  "objAssign k v props = (if k = ''__proto__'' then props else AList.update k v props)"

definition getAllBotStatuses :: "manager \<Rightarrow> (string \<times> status) list" where
  "getAllBotStatuses m = fold (\<lambda>(b, s). objAssign b s) (botStatus m) []"

definition getBotStats :: "manager \<Rightarrow> botId \<Rightarrow> jsval" where
  "getBotStats m b =
     (case map_of (botStatus m) b of
        None \<Rightarrow> Obj []
      | Some s \<Rightarrow> (case s ''stats'' of
                    None \<Rightarrow> Obj [] | Some Undefined \<Rightarrow> Obj [] | Some Null \<Rightarrow> Obj []
                  | Some (Str x) \<Rightarrow> (if x = [] then Obj [] else Str x)
                  | Some v \<Rightarrow> v))"

subsection \<open>Keep-alive\<close>

definition startKeepAlive :: "botId \<Rightarrow> manager \<Rightarrow> manager" where
  "startKeepAlive b m =
     (case map_of (bots m) b of
        None \<Rightarrow> m
      | Some r \<Rightarrow>
          (let m1 = (case keepAliveTimers m b of Some t \<Rightarrow> clearTimer t m | None \<Rightarrow> m);
               t = nextTimer m1;
               m2 = setTimer 45000 (TKeepAlive b r) m1
           in m2\<lparr> keepAliveTimers := (keepAliveTimers m2)(b \<mapsto> t) \<rparr>))"

definition keepAliveTick :: "botId \<Rightarrow> ref \<Rightarrow> keepOutcome \<Rightarrow> manager \<Rightarrow> manager" where
  "keepAliveTick b r outcome m =
     (case outcome of
        NoEntity \<Rightarrow> m
      | FailsEarly e \<Rightarrow> emitLog b Err (KeepAliveError e) m
      | Moves jump failure \<Rightarrow>
          (let m1 = setTimer 1000 (TControlOff r ''forward'') m;
               m2 = (if jump then setTimer 500 (TControlOff r ''jump'') m1 else m1)
           in case failure of None \<Rightarrow> m2 | Some e \<Rightarrow> emitLog b Err (KeepAliveError e) m2))"

subsection \<open>Handlers of the client's events\<close>

text \<open>
  Each handler is a closure over the bot object \<open>r\<close>, its \<open>botId\<close> and its \<open>botConfig\<close>;
  it reads \<open>bot.manuallyStopped\<close> from the object when the event arrives.
\<close>

definition onSpawn :: "ref \<Rightarrow> jsval \<Rightarrow> jsval \<Rightarrow> jsval \<Rightarrow> manager \<Rightarrow> manager" where
  "onSpawn r now dimension position m =
     (case heap m r of
        None \<Rightarrow> m
      | Some obj \<Rightarrow>
          if \<not> spawnListener obj then m
          else (let b = botId obj;
                    m0 = m\<lparr> heap := (heap m)(r \<mapsto> obj\<lparr> spawnListener := False \<rparr>) \<rparr>;
                    m1 = emitLog b Info Spawned m0;
                    m2 = updateStatus b [''status'' \<mapsto> Str ''online'', ''connectedSince'' \<mapsto> now,
                           ''world'' \<mapsto> dimension, ''dimension'' \<mapsto> dimension,
                           ''position'' \<mapsto> position] m1;
                    m3 = setTimer 5000 (TAuthRegister b r (botConfig obj)) m2;
                    m4 = startKeepAlive b m3
                in processMessageQueue b m4))"

definition onKicked :: "ref \<Rightarrow> string \<Rightarrow> manager \<Rightarrow> manager" where
  "onKicked r reason m =
     (case heap m r of
        None \<Rightarrow> m
      | Some obj \<Rightarrow>
          (let b = botId obj; cfg = botConfig obj;
               m1 = emitLog b Warn (KickedLog reason) m;
               m2 = updateStatus b [''status'' \<mapsto> Str ''offline'',
                      ''lastError'' \<mapsto> Str (''Kicked: '' @ reason)] m1;
               m3 = (if autoReconnect cfg \<and> \<not> manuallyStopped obj
                     then scheduleReconnect b (Some cfg) m2 else m2)
           in cleanupBot b True m3))"

definition onError :: "ref \<Rightarrow> string \<Rightarrow> manager \<Rightarrow> manager" where
  "onError r errMessage m =
     (case heap m r of
        None \<Rightarrow> m
      | Some obj \<Rightarrow>
          (let b = botId obj; cfg = botConfig obj;
               m1 = emitLog b Err (ErrorLog errMessage) m;
               m2 = updateStatus b [''status'' \<mapsto> Str ''error'',
                      ''lastError'' \<mapsto> Str errMessage] m1;
               m3 = (if autoReconnect cfg \<and> \<not> manuallyStopped obj
                     then scheduleReconnect b (Some cfg) m2 else m2)
           in cleanupBot b True m3))"

definition onEnd :: "ref \<Rightarrow> string option \<Rightarrow> manager \<Rightarrow> manager" where
  "onEnd r reason m =
     (case heap m r of
        None \<Rightarrow> m
      | Some obj \<Rightarrow>
          (let b = botId obj; cfg = botConfig obj;
               shown = (case reason of None \<Rightarrow> ''No reason provided''
                        | Some x \<Rightarrow> (if x = [] then ''No reason provided'' else x));
               m1 = emitLog b Warn (Disconnected shown) m;
               m2 = updateStatus b [''status'' \<mapsto> Str ''offline''] m1;
               m3 = (if autoReconnect cfg \<and> \<not> manuallyStopped obj
                     then scheduleReconnect b (Some cfg) m2 else m2)
           in cleanupBot b True m3))"

record telemetry =
  position :: jsval
  dimension :: jsval
  health :: jsval
  food :: jsval
  ping :: "jsval option"

text \<open>
  The \<open>move\<close> handler writes the telemetry into the \<open>stats\<close> object of the current status
  and passes that object as the patch. \<open>stats\<close> is only ever stored as an object; a status
  is always recorded before a bot object exists.
\<close>

definition onMove :: "ref \<Rightarrow> telemetry \<Rightarrow> manager \<Rightarrow> manager" where
  "onMove r t m =
     (case heap m r of
        None \<Rightarrow> m
      | Some obj \<Rightarrow>
          (case map_of (botStatus m) (botId obj) of
             None \<Rightarrow> m
           | Some s \<Rightarrow>
               (let stats0 = (case s ''stats'' of Some (Obj kv) \<Rightarrow> kv | _ \<Rightarrow> []);
                    stats1 = AList.update ''position'' (position t) stats0;
                    stats2 = AList.update ''world'' (dimension t) stats1;
                    stats3 = AList.update ''dimension'' (dimension t) stats2;
                    stats4 = AList.update ''health'' (health t) stats3;
                    stats5 = AList.update ''food'' (food t) stats4;
                    stats6 = (case ping t of None \<Rightarrow> stats5
                              | Some p \<Rightarrow> AList.update ''ping'' p stats5)
                in updateStatus (botId obj) [''stats'' \<mapsto> Obj stats6] m)))"

text \<open>
  The handlers of \<open>chat\<close>, \<open>message\<close>, \<open>playerJoined\<close>, \<open>playerLeft\<close>, \<open>death\<close>, \<open>health\<close>,
  \<open>entitySpawn\<close> and \<open>messagestr\<close> write at most a log line.
\<close>

definition onNotice :: "ref \<Rightarrow> level \<Rightarrow> string \<Rightarrow> manager \<Rightarrow> manager" where
  "onNotice r l txt m =
     (case heap m r of None \<Rightarrow> m | Some obj \<Rightarrow> emitLog (botId obj) l (ClientText txt) m)"

subsection \<open>Timer callbacks\<close>

text \<open>
  A timeout leaves the runtime's table when it fires; an interval stays. The handle of a
  fired reconnect timeout stays in \<open>reconnectTimers\<close> until \<open>startBot\<close> deletes it.
\<close>

definition fire :: "ref \<Rightarrow> outcomes \<Rightarrow> manager \<Rightarrow> manager" where
  "fire t ext m =
     (case timers m t of
        None \<Rightarrow> m
      | Some tm \<Rightarrow>
          (case action tm of
             TReconnect b cfg \<Rightarrow>
               startBot cfg (createResult ext) (emitLog b Info AttemptReconnect (clearTimer t m))
           | TKeepAlive b r \<Rightarrow> keepAliveTick b r (keepResult ext) m
           | TQueued b message \<Rightarrow>
               (let m1 = clearTimer t m
                in if map_of (bots m1) b \<noteq> None
                   then (case chatResult ext of
                           ChatOk \<Rightarrow> emitLog b Info (SentQueued message) m1
                         | ChatThrows e \<Rightarrow> emitLog b Err (QueuedSendFailed e) m1
                         | NoChat \<Rightarrow> m1)
                   else m1)
           | TAuthRegister b r cfg \<Rightarrow>
               (let m1 = clearTimer t m
                in if hasPassword cfg
                   then (let m2 = (case chatResult ext of
                                     ChatOk \<Rightarrow> emitLog b Info AuthRegisterSent m1 | _ \<Rightarrow> m1)
                         in setTimer 2000 (TAuthLogin b r cfg) m2)
                   else m1)
           | TAuthLogin b r cfg \<Rightarrow>
               (let m1 = clearTimer t m
                in case chatResult ext of
                     ChatOk \<Rightarrow> emitLog b Info AuthLoginSent m1 | _ \<Rightarrow> m1)
           | TControlOff r ctl \<Rightarrow> clearTimer t m))"

subsection \<open>Runs of the manager\<close>

text \<open>
  The manager changes only through the exported functions, the handlers registered on the
  bot objects and the timer callbacks. \<open>loadBots\<close> is started by the constructor and is
  taken to have finished before the first of them runs.
\<close>

datatype event =
    Start botConfig createOutcome
  | Stop botId quitOutcome
  | ShutdownAll
  | Send botId string chatOutcome
  | EvSpawn ref jsval jsval jsval
  | EvKicked ref string
  | EvError ref string
  | EvEnd ref "string option"
  | EvMove ref telemetry
  | EvNotice ref level string
  | Fire ref outcomes

fun step :: "event \<Rightarrow> manager \<Rightarrow> manager" where
  "step (Start cfg outcome) m = startBot cfg outcome m"
| "step (Stop b outcome) m = snd (stopBot b outcome m)"
| "step ShutdownAll m = shutdownAll m"
| "step (Send b message outcome) m = snd (sendMessage b message outcome m)"
| "step (EvSpawn r now dm pos) m = onSpawn r now dm pos m"
| "step (EvKicked r reason) m = onKicked r reason m"
| "step (EvError r e) m = onError r e m"
| "step (EvEnd r reason) m = onEnd r reason m"
| "step (EvMove r t) m = onMove r t m"
| "step (EvNotice r l txt) m = onNotice r l txt m"
| "step (Fire t ext) m = fire t ext m"

definition run :: "event list \<Rightarrow> manager \<Rightarrow> manager" where
  "run evs m = fold step evs m"

inductive reachable :: "manager \<Rightarrow> bool" where
  loaded: "reachable (loadBots cfgs newManager)"
| stepped: "reachable m \<Longrightarrow> reachable (step e m)"

subsection \<open>Observations used in the statements\<close>

text \<open>The field \<open>k\<close> of the status recorded for \<open>b\<close>, if any.\<close>

definition statusField :: "manager \<Rightarrow> botId \<Rightarrow> string \<Rightarrow> jsval option" where
  "statusField m b k = (case map_of (botStatus m) b of None \<Rightarrow> None | Some s \<Rightarrow> s k)"

text \<open>The delay of the reconnect timeout that is pending for \<open>b\<close>, if any.\<close>

definition pendingReconnect :: "manager \<Rightarrow> botId \<Rightarrow> rat option" where
  "pendingReconnect m b =
     (case reconnectTimers m b of
        None \<Rightarrow> None
      | Some t \<Rightarrow> (case timers m t of None \<Rightarrow> None | Some tm \<Rightarrow> Some (delay tm)))"

text \<open>
  The queued sends for \<open>b\<close> among the timers set between two states, in the order in which
  they were set, each with its delay.
\<close>

fun queuedSend :: "botId \<Rightarrow> timer option \<Rightarrow> (rat \<times> string) list" where
  "queuedSend b None = []"
| "queuedSend b (Some tm) =
     (case action tm of
        TQueued b' message \<Rightarrow> (if b' = b then [(delay tm, message)] else [])
      | _ \<Rightarrow> [])"

definition scheduledSends :: "botId \<Rightarrow> manager \<Rightarrow> manager \<Rightarrow> (rat \<times> string) list" where
  "scheduledSends b m m' =
     concat (map (\<lambda>t. queuedSend b (timers m' t)) [nextTimer m ..< nextTimer m'])"

text \<open>
  A registered bot object has no reconnect pending and a status of connecting or online,
  and the two iterated maps have one entry per key.
\<close>

definition wellFormed :: "manager \<Rightarrow> bool" where
  "wellFormed m \<longleftrightarrow>
     distinct (map fst (bots m)) \<and> distinct (map fst (botStatus m)) \<and>
     (\<forall>b. map_of (bots m) b \<noteq> None \<longrightarrow>
        reconnectTimers m b = None \<and>
        (statusField m b ''status'' = Some (Str ''connecting'') \<or>
         statusField m b ''status'' = Some (Str ''online'')))"

subsection \<open>Consecutive connect failures in which the client constructor throws\<close>

text \<open>
  \<open>startBot\<close> fails in its \<open>catch\<close> branch, and each retry is the callback of the reconnect
  timeout pending for the bot, failing in the same way.
\<close>

definition throwing :: "string \<Rightarrow> outcomes" where
  "throwing e = \<lparr> createResult = CreateThrows e, chatResult = NoChat, keepResult = NoEntity \<rparr>"

fun retryFailing :: "nat \<Rightarrow> botConfig \<Rightarrow> string \<Rightarrow> manager \<Rightarrow> manager" where
  "retryFailing 0 cfg e m = startBot cfg (CreateThrows e) m"
| "retryFailing (Suc k) cfg e m =
     (let m' = retryFailing k cfg e m
      in case reconnectTimers m' (cfg_id cfg) of
           None \<Rightarrow> m'
         | Some t \<Rightarrow> fire t (throwing e) m')"

subsection \<open>Example inputs\<close>

definition e1 :: botConfig where
  "e1 = \<lparr> cfg_id = ''e1'', cfg_name = ''Bot'', username = ''bot'', password = None,
          enabled = Some True \<rparr>"

definition protoBot :: botConfig where
  "protoBot = \<lparr> cfg_id = ''__proto__'', cfg_name = ''Bot'', username = ''bot'', password = None,
          enabled = Some True \<rparr>"

definition accepting :: outcomes where
  "accepting = \<lparr> createResult = Created, chatResult = ChatOk, keepResult = NoEntity \<rparr>"

definition fleet :: manager where
  "fleet = loadBots [e1] newManager"

section \<open>What the operations leave alone\<close>

lemma frame_emitLog [simp]:
  "bots (emitLog b l x m) = bots m"
  "botStatus (emitLog b l x m) = botStatus m"
  "reconnectTimers (emitLog b l x m) = reconnectTimers m"
  by (simp_all add: emitLog_def)

lemma frame_setTimer [simp]:
  "bots (setTimer d a m) = bots m"
  "botStatus (setTimer d a m) = botStatus m"
  "reconnectTimers (setTimer d a m) = reconnectTimers m"
  by (simp_all add: setTimer_def)

lemma frame_clearTimer [simp]:
  "bots (clearTimer t m) = bots m"
  "botStatus (clearTimer t m) = botStatus m"
  "reconnectTimers (clearTimer t m) = reconnectTimers m"
  by (simp_all add: clearTimer_def)

lemma frame_updateStatus [simp]:
  "bots (updateStatus b u m) = bots m"
  "reconnectTimers (updateStatus b u m) = reconnectTimers m"
  by (simp_all add: updateStatus_def Let_def)

lemma frame_cancelReconnect [simp]:
  "bots (cancelReconnect b m) = bots m"
  "botStatus (cancelReconnect b m) = botStatus m"
  "reconnectTimers (cancelReconnect b m) = (reconnectTimers m)(b := None)"
  by (auto simp add: cancelReconnect_def split: option.splits)

lemma frame_cleanupBot [simp]:
  "bots (cleanupBot b f m) = AList.delete b (bots m)"
  "botStatus (cleanupBot b f m) = botStatus m"
  "reconnectTimers (cleanupBot b f m) = (if f then reconnectTimers m else (reconnectTimers m)(b := None))"
  by (auto simp add: cleanupBot_def Let_def split: option.splits)

lemma frame_scheduleReconnect [simp]:
  "bots (scheduleReconnect b c m) = bots m"
  "botStatus (scheduleReconnect b c m) = botStatus m"
  "b' \<noteq> b \<Longrightarrow> reconnectTimers (scheduleReconnect b c m) b' = reconnectTimers m b'"
  by (auto simp add: scheduleReconnect_def Let_def split: option.splits)

lemma frame_fold_setTimer:
  "bots (fold (\<lambda>(i, x). setTimer (d i) (a x)) xs m) = bots m \<and>
   botStatus (fold (\<lambda>(i, x). setTimer (d i) (a x)) xs m) = botStatus m \<and>
   reconnectTimers (fold (\<lambda>(i, x). setTimer (d i) (a x)) xs m) = reconnectTimers m"
  by (induction xs arbitrary: m) auto

lemma frame_processMessageQueue [simp]:
  "bots (processMessageQueue b m) = bots m"
  "botStatus (processMessageQueue b m) = botStatus m"
  "reconnectTimers (processMessageQueue b m) = reconnectTimers m"
  by (simp_all add: processMessageQueue_def Let_def frame_fold_setTimer)

lemma frame_startKeepAlive [simp]:
  "bots (startKeepAlive b m) = bots m"
  "botStatus (startKeepAlive b m) = botStatus m"
  "reconnectTimers (startKeepAlive b m) = reconnectTimers m"
  by (simp_all add: startKeepAlive_def Let_def split: option.splits)

lemma frame_keepAliveTick [simp]:
  "bots (keepAliveTick b r k m) = bots m"
  "botStatus (keepAliveTick b r k m) = botStatus m"
  "reconnectTimers (keepAliveTick b r k m) = reconnectTimers m"
  by (simp_all add: keepAliveTick_def Let_def split: keepOutcome.splits option.splits)

lemma frame_sendMessage [simp]:
  "bots (snd (sendMessage b x c m)) = bots m"
  "botStatus (snd (sendMessage b x c m)) = botStatus m"
  "reconnectTimers (snd (sendMessage b x c m)) = reconnectTimers m"
  by (simp_all add: sendMessage_def Let_def emitLog_def split: chatOutcome.splits)

lemma frame_setStopped [simp]:
  "bots (setStopped r m) = bots m"
  "botStatus (setStopped r m) = botStatus m"
  "reconnectTimers (setStopped r m) = reconnectTimers m"
  by (simp_all add: setStopped_def split: option.splits)

lemma statusField_updateStatus:
  "statusField (updateStatus b u m) b' k =
     (if b' = b
      then (case u k of Some v \<Rightarrow> Some v
            | None \<Rightarrow> (case map_of (botStatus m) b of Some s \<Rightarrow> s k | None \<Rightarrow> defaultStatus k))
      else statusField m b' k)"
  by (simp add: statusField_def updateStatus_def Let_def update_conv' map_add_def split: option.splits)

lemma statusField_frame:
  "botStatus m' = botStatus m \<Longrightarrow> statusField m' b k = statusField m b k"
  by (simp add: statusField_def)

lemma keys_updateStatus:
  "distinct (map fst (botStatus m)) \<Longrightarrow> distinct (map fst (botStatus (updateStatus b u m)))"
  by (simp add: updateStatus_def Let_def distinct_update)

lemma wellFormed_frame:
  "bots m' = bots m \<Longrightarrow> botStatus m' = botStatus m \<Longrightarrow> reconnectTimers m' = reconnectTimers m
   \<Longrightarrow> wellFormed m' = wellFormed m"
  by (simp add: wellFormed_def statusField_def)

lemma wellFormed_emitLog [simp]: "wellFormed (emitLog b l x m) = wellFormed m"
  by (rule wellFormed_frame) simp_all

lemma wellFormed_setTimer [simp]: "wellFormed (setTimer d a m) = wellFormed m"
  by (rule wellFormed_frame) simp_all

lemma wellFormed_clearTimer [simp]: "wellFormed (clearTimer t m) = wellFormed m"
  by (rule wellFormed_frame) simp_all

lemma wellFormed_processMessageQueue [simp]: "wellFormed (processMessageQueue b m) = wellFormed m"
  by (rule wellFormed_frame) simp_all

lemma wellFormed_startKeepAlive [simp]: "wellFormed (startKeepAlive b m) = wellFormed m"
  by (rule wellFormed_frame) simp_all

lemma wellFormed_keepAliveTick [simp]: "wellFormed (keepAliveTick b r k m) = wellFormed m"
  by (rule wellFormed_frame) simp_all

lemma wellFormed_sendMessage [simp]: "wellFormed (snd (sendMessage b x c m)) = wellFormed m"
  by (rule wellFormed_frame) simp_all

lemma wellFormed_setStopped [simp]: "wellFormed (setStopped r m) = wellFormed m"
  by (rule wellFormed_frame) simp_all

lemma wellFormed_cancelReconnect: "wellFormed m \<Longrightarrow> wellFormed (cancelReconnect b m)"
  by (simp add: wellFormed_def statusField_def)

text \<open>Any change confined to an id without a registered bot object keeps the invariant.\<close>

lemma wellFormed_unregistered:
  assumes "wellFormed m" and "map_of (bots m') b = None"
    and "\<And>b'. b' \<noteq> b \<Longrightarrow> map_of (bots m') b' = map_of (bots m) b'"
    and "distinct (map fst (bots m'))" and "distinct (map fst (botStatus m'))"
    and "\<And>b'. b' \<noteq> b \<Longrightarrow> statusField m' b' ''status'' = statusField m b' ''status''"
    and "\<And>b'. b' \<noteq> b \<Longrightarrow> reconnectTimers m' b' = reconnectTimers m b'"
  shows "wellFormed m'"
  unfolding wellFormed_def
proof (intro conjI allI impI)
  fix b' assume reg: "map_of (bots m') b' \<noteq> None"
  then have ne: "b' \<noteq> b" using assms(2) by auto
  then have "map_of (bots m) b' \<noteq> None" using reg assms(3) by simp
  then have "reconnectTimers m b' = None \<and>
        (statusField m b' ''status'' = Some (Str ''connecting'') \<or>
         statusField m b' ''status'' = Some (Str ''online''))"
    using assms(1) by (simp add: wellFormed_def)
  then show "reconnectTimers m' b' = None"
    and "statusField m' b' ''status'' = Some (Str ''connecting'') \<or>
         statusField m' b' ''status'' = Some (Str ''online'')"
    using assms(6,7) ne by simp_all
qed (use assms in simp_all)

lemma wellFormed_distinct: "wellFormed m \<Longrightarrow> distinct (map fst (bots m)) \<and> distinct (map fst (botStatus m))"
  by (simp add: wellFormed_def)

lemma wellFormed_updateStatus_unregistered:
  "wellFormed m \<Longrightarrow> map_of (bots m) b = None \<Longrightarrow> wellFormed (updateStatus b u m)"
  by (rule wellFormed_unregistered [of m _ b])
     (simp_all add: statusField_updateStatus keys_updateStatus wellFormed_distinct)

lemma wellFormed_scheduleReconnect_unregistered:
  "wellFormed m \<Longrightarrow> map_of (bots m) b = None \<Longrightarrow> wellFormed (scheduleReconnect b c m)"
  by (rule wellFormed_unregistered [of m _ b])
     (simp_all add: statusField_def wellFormed_distinct)

lemma wellFormed_register:
  assumes "wellFormed m" "reconnectTimers m b = None"
    "statusField m b ''status'' = Some (Str ''connecting'')"
    "bots m' = AList.update b r (bots m)" "botStatus m' = botStatus m"
    "reconnectTimers m' = reconnectTimers m"
  shows "wellFormed m'"
  using assms by (auto simp add: wellFormed_def statusField_def distinct_update update_conv')

lemma wellFormed_startBot:
  assumes wf: "wellFormed m"
  shows "wellFormed (startBot cfg c m)"
proof -
  let ?b = "cfg_id cfg"
  let ?m1 = "cancelReconnect ?b m"
  let ?m3 = "updateStatus ?b [''status'' \<mapsto> Str ''connecting'']
               (emitLog ?b Info (Starting (cfg_name cfg) (username cfg)) ?m1)"
  have wf1: "wellFormed ?m1" using wf by (rule wellFormed_cancelReconnect)
  show ?thesis
  proof (cases "map_of (bots m) ?b")
    case (Some r)
    then have "startBot cfg c m = emitLog ?b Warn AlreadyRunning ?m1"
      by (simp add: startBot_def Let_def)
    then show ?thesis using wf1 by simp
  next
    case None
    then have wf3: "wellFormed ?m3"
      using wf1 by (intro wellFormed_updateStatus_unregistered) simp_all
    show ?thesis
    proof (cases c)
      case Created
      show ?thesis
        by (rule wellFormed_register [OF wf3, of ?b _ "nextBot ?m3"])
           (simp_all add: statusField_updateStatus startBot_def Let_def None Created)
    next
      case (CreateThrows e)
      let ?m5 = "updateStatus ?b [''status'' \<mapsto> Str ''error'', ''lastError'' \<mapsto> Str e]
                   (emitLog ?b Err (FailedCreate e) ?m3)"
      have wf5: "wellFormed ?m5"
        using wf3 None by (intro wellFormed_updateStatus_unregistered) simp_all
      have wf6: "wellFormed (scheduleReconnect ?b (Some cfg) ?m5)"
        using wf5 None by (intro wellFormed_scheduleReconnect_unregistered) simp_all
      have "startBot cfg c m = (if autoReconnect cfg then scheduleReconnect ?b (Some cfg) ?m5 else ?m5)"
        using None CreateThrows by (simp add: startBot_def Let_def)
      then show ?thesis using wf5 wf6 by simp
    qed
  qed
qed


lemma wellFormed_cleanupBot:
  assumes wf: "wellFormed m"
    and keys: "distinct (map fst (botStatus m'))" and same: "bots m' = bots m"
    and st: "\<And>b'. b' \<noteq> b \<Longrightarrow> statusField m' b' ''status'' = statusField m b' ''status''"
    and rt: "\<And>b'. b' \<noteq> b \<Longrightarrow> reconnectTimers m' b' = reconnectTimers m b'"
  shows "wellFormed (cleanupBot b f m')"
proof (rule wellFormed_unregistered [OF wf, of _ b])
  show "map_of (bots (cleanupBot b f m')) b = None" by (simp add: delete_conv')
  show "map_of (bots (cleanupBot b f m')) b' = map_of (bots m) b'" if "b' \<noteq> b" for b'
    using that by (simp add: same)
  show "distinct (map fst (bots (cleanupBot b f m')))"
    using wellFormed_distinct [OF wf] by (simp add: same distinct_delete)
  show "distinct (map fst (botStatus (cleanupBot b f m')))" using keys by simp
  show "statusField (cleanupBot b f m') b' ''status'' = statusField m b' ''status''"
    if "b' \<noteq> b" for b'
  proof -
    have "statusField (cleanupBot b f m') b' ''status'' = statusField m' b' ''status''"
      by (simp add: statusField_def)
    then show ?thesis using st [OF that] by simp
  qed
  show "reconnectTimers (cleanupBot b f m') b' = reconnectTimers m b'" if "b' \<noteq> b" for b'
    using that rt [OF that] by simp
qed

lemma wellFormed_updateStatus_live:
  assumes wf: "wellFormed m"
    and u: "u ''status'' = None \<or> u ''status'' = Some (Str ''connecting'') \<or>
            u ''status'' = Some (Str ''online'')"
  shows "wellFormed (updateStatus b u m)"
  unfolding wellFormed_def
proof (intro conjI allI impI)
  fix b' assume "map_of (bots (updateStatus b u m)) b' \<noteq> None"
  then have reg: "map_of (bots m) b' \<noteq> None" by simp
  then have old: "reconnectTimers m b' = None"
    "statusField m b' ''status'' = Some (Str ''connecting'') \<or>
     statusField m b' ''status'' = Some (Str ''online'')"
    using wf by (simp_all add: wellFormed_def)
  show "reconnectTimers (updateStatus b u m) b' = None" using old by simp
  show "statusField (updateStatus b u m) b' ''status'' = Some (Str ''connecting'') \<or>
        statusField (updateStatus b u m) b' ''status'' = Some (Str ''online'')"
  proof (cases "b' = b")
    case False
    then show ?thesis using old by (simp add: statusField_updateStatus)
  next
    case True
    then obtain s where s: "map_of (botStatus m) b = Some s" using old(2)
      by (auto simp add: statusField_def split: option.splits)
    have new: "statusField (updateStatus b u m) b ''status'' =
                 (case u ''status'' of Some v \<Rightarrow> Some v | None \<Rightarrow> s ''status'')"
      using s by (simp add: statusField_updateStatus split: option.splits)
    have "s ''status'' = Some (Str ''connecting'') \<or> s ''status'' = Some (Str ''online'')"
      using old(2) True s by (simp add: statusField_def)
    then show ?thesis using u unfolding True new by auto
  qed
next
  show "distinct (map fst (bots (updateStatus b u m)))"
    using wellFormed_distinct [OF wf] by simp
  show "distinct (map fst (botStatus (updateStatus b u m)))"
    using wellFormed_distinct [OF wf] by (simp add: keys_updateStatus)
qed

lemma wellFormed_stopBot:
  assumes wf: "wellFormed m"
  shows "wellFormed (snd (stopBot b outcome m))"
proof -
  let ?m2 = "(cancelReconnect b m)\<lparr> reconnectAttempts := (reconnectAttempts (cancelReconnect b m))(b \<mapsto> 0) \<rparr>"
  have wf2: "wellFormed ?m2"
    using wellFormed_cancelReconnect [OF wf, of b]
    by (simp add: wellFormed_frame [of ?m2 "cancelReconnect b m"])
  show ?thesis
  proof (cases "map_of (bots m) b")
    case None
    then have "snd (stopBot b outcome m) = updateStatus b [''status'' \<mapsto> Str ''offline''] ?m2"
      by (simp add: stopBot_def Let_def)
    then show ?thesis using wf2 None by (simp add: wellFormed_updateStatus_unregistered)
  next
    case (Some r)
    let ?m3 = "setStopped r (emitLog b Info Stopping ?m2)"
    show ?thesis
    proof (cases outcome)
      case QuitReturns
      then have eq: "snd (stopBot b outcome m) = cleanupBot b False ?m3"
        using Some by (simp add: stopBot_def Let_def)
      show ?thesis unfolding eq
      proof (rule wellFormed_cleanupBot [OF wf])
        show "distinct (map fst (botStatus ?m3))"
          using wellFormed_distinct [OF wf] by simp
      qed (simp_all add: statusField_def)
    next
      case (QuitThrows e)
      then have eq: "snd (stopBot b outcome m) = ?m3"
        using Some by (simp add: stopBot_def Let_def)
      show ?thesis unfolding eq using wf2 by simp
    qed
  qed
qed

lemma frame_fold_cleanupBot:
  "botStatus (fold (\<lambda>b. cleanupBot b False) bs m) = botStatus m"
  by (induction bs arbitrary: m) simp_all

lemma wellFormed_shutdownAll:
  assumes wf: "wellFormed m"
  shows "wellFormed (shutdownAll m)"
  using wf by (simp add: wellFormed_def shutdownAll_def Let_def frame_fold_cleanupBot)

lemma wellFormed_onSpawn:
  assumes wf: "wellFormed m"
  shows "wellFormed (onSpawn r now dm pos m)"
proof (cases "heap m r")
  case None
  then show ?thesis using wf by (simp add: onSpawn_def)
next
  case (Some obj)
  let ?m0 = "m\<lparr> heap := (heap m)(r \<mapsto> obj\<lparr> spawnListener := False \<rparr>) \<rparr>"
  have "wellFormed ?m0" using wf by (simp add: wellFormed_frame [of ?m0 m])
  then show ?thesis using wf Some
    by (simp add: onSpawn_def Let_def wellFormed_updateStatus_live)
qed

lemma wellFormed_disconnect:
  assumes wf: "wellFormed m"
  shows "wellFormed (cleanupBot b True
           (if c then scheduleReconnect b cfgOpt (updateStatus b u (emitLog b l x m))
            else updateStatus b u (emitLog b l x m)))"
proof (rule wellFormed_cleanupBot [OF wf])
  have "distinct (map fst (botStatus (updateStatus b u (emitLog b l x m))))"
    using wellFormed_distinct [OF wf] by (simp add: keys_updateStatus)
  then show "distinct (map fst (botStatus
           (if c then scheduleReconnect b cfgOpt (updateStatus b u (emitLog b l x m))
            else updateStatus b u (emitLog b l x m))))"
    by simp
next
  fix b' assume "b' \<noteq> b"
  then have "statusField (updateStatus b u (emitLog b l x m)) b' ''status'' = statusField m b' ''status''"
    by (simp add: statusField_updateStatus) (simp add: statusField_def)
  then show "statusField (if c then scheduleReconnect b cfgOpt (updateStatus b u (emitLog b l x m))
            else updateStatus b u (emitLog b l x m)) b' ''status'' = statusField m b' ''status''"
    by (simp add: statusField_def)
qed simp_all

lemma wellFormed_onKicked: "wellFormed m \<Longrightarrow> wellFormed (onKicked r reason m)"
  by (cases "heap m r") (simp_all add: onKicked_def Let_def wellFormed_disconnect)

lemma wellFormed_onError: "wellFormed m \<Longrightarrow> wellFormed (onError r e m)"
  by (cases "heap m r") (simp_all add: onError_def Let_def wellFormed_disconnect)

lemma wellFormed_onEnd: "wellFormed m \<Longrightarrow> wellFormed (onEnd r reason m)"
  by (cases "heap m r") (simp_all add: onEnd_def Let_def wellFormed_disconnect)

lemma wellFormed_onMove: "wellFormed m \<Longrightarrow> wellFormed (onMove r t m)"
  by (simp add: onMove_def Let_def wellFormed_updateStatus_live split: option.splits)

lemma wellFormed_onNotice: "wellFormed m \<Longrightarrow> wellFormed (onNotice r l txt m)"
  by (simp add: onNotice_def split: option.splits)

lemma wellFormed_fire: "wellFormed m \<Longrightarrow> wellFormed (fire t ext m)"
  by (auto simp add: fire_def Let_def wellFormed_startBot
      split: option.splits timerAction.splits chatOutcome.splits)

lemma wellFormed_step: "wellFormed m \<Longrightarrow> wellFormed (step e m)"
  by (cases e)
     (simp_all add: wellFormed_startBot wellFormed_stopBot wellFormed_shutdownAll
        wellFormed_onSpawn wellFormed_onKicked wellFormed_onError wellFormed_onEnd
        wellFormed_onMove wellFormed_onNotice wellFormed_fire)

lemma wellFormed_loadBots: "wellFormed (loadBots cfgs newManager)"
proof -
  have "bots (fold loadBot cfgs m) = bots m \<and>
        (distinct (map fst (botStatus m)) \<longrightarrow> distinct (map fst (botStatus (fold loadBot cfgs m))))" for m
    by (induction cfgs arbitrary: m) (auto simp: loadBot_def distinct_update)
  from this [of newManager] show ?thesis
    by (simp add: wellFormed_def loadBots_def newManager_def)
qed

lemma reachable_wellFormed: "reachable m \<Longrightarrow> wellFormed m"
  by (induction rule: reachable.induct) (simp_all add: wellFormed_loadBots wellFormed_step)

section \<open>Evaluating runs\<close>

lemmas model_defs =
  run_def fleet_def e1_def accepting_def newManager_def loadBots_def
  loadBot_def loadedStatus_def defaultStatus_def autoReconnect_def hasPassword_def
  emitLog_def updateStatus_def setTimer_def clearTimer_def cancelReconnect_def
  reconnectDelay_def mathRound_def cleanupBot_def registeredStopped_def
  scheduleReconnect_def startBot_def setStopped_def stopBot_def shutdownAll_def
  getQueue_def sendMessage_def processMessageQueue_def
  startKeepAlive_def keepAliveTick_def onSpawn_def onKicked_def
  onError_def onEnd_def onMove_def onNotice_def fire_def statusField_def
  pendingReconnect_def Let_def

section \<open>Reconnect policy\<close>

text \<open>
  C2, as stated, asks for \<open>delay(1) = baseDelay\<close>. The first retry is scheduled with attempt
  count 1, and its delay is 7500 ms, not 5000 ms.
\<close>

theorem reconnectDelay_first_counterexample:
  "reconnectDelay 1 = 7500 \<and> reconnectDelay 1 \<noteq> 5000"
  by (simp add: reconnectDelay_def)

lemma reconnectDelay_mono: "reconnectDelay n \<le> reconnectDelay (Suc n)"
proof -
  have "(3 / 2 :: rat) ^ n \<le> (3 / 2) ^ Suc n"
    by (rule power_increasing) simp_all
  then have "5000 * (3 / 2 :: rat) ^ n \<le> 5000 * (3 / 2) ^ Suc n"
    by (simp only: mult_le_cancel_left_pos)
  then show ?thesis
    unfolding reconnectDelay_def by (rule min.mono [OF order_refl])
qed

text \<open>
  C2 (amended): for every attempt count \<open>n \<ge> 1\<close> the delay does not decrease from \<open>n\<close> to
  \<open>n + 1\<close> and never exceeds 300000 ms, and the delay of the first retry is
  \<open>baseDelay * growthFactor\<close>, that is 7500 ms.
\<close>

theorem reconnectDelay_monotone_capped:
  "1 \<le> n \<Longrightarrow>
   reconnectDelay n \<le> reconnectDelay (n + 1) \<and> reconnectDelay (n + 1) \<le> 300000 \<and>
   reconnectDelay 1 = 5000 * (3 / 2)"
  using reconnectDelay_mono [of n] by (simp add: reconnectDelay_def)

theorem reconnectDelay_monotone_capped_witness:
  "(1::nat) \<le> 3 \<and> reconnectDelay 3 \<le> reconnectDelay (3 + 1) \<and>
   reconnectDelay (3 + 1) \<le> 300000 \<and> reconnectDelay 1 = 5000 * (3 / 2)"
  using reconnectDelay_monotone_capped [of 3] by simp

section \<open>Status updates\<close>

text \<open>
  C9: a status update is a shallow merge into the record that exists for the bot. The new
  record has the patch's value at every field of the patch and the prior value at every
  other field, and the records of the other bots are untouched.
\<close>

theorem updateStatus_merges:
  assumes "map_of (botStatus m) b = Some cur"
  shows "\<exists>new. map_of (botStatus (updateStatus b updates m)) b = Some new \<and>
           (\<forall>k. new k = (if k \<in> dom updates then updates k else cur k)) \<and>
           (\<forall>b'. b' \<noteq> b \<longrightarrow>
               map_of (botStatus (updateStatus b updates m)) b' = map_of (botStatus m) b')"
  using assms
  by (auto simp add: updateStatus_def Let_def update_conv' map_add_def dom_def split: option.splits)

theorem updateStatus_merges_witness:
  "map_of (botStatus fleet) ''e1'' = Some loadedStatus \<and>
   statusField (updateStatus ''e1'' [''status'' \<mapsto> Str ''connecting''] fleet) ''e1'' ''lastError''
     = Some Null \<and>
   statusField (updateStatus ''e1'' [''status'' \<mapsto> Str ''connecting''] fleet) ''e1'' ''status''
     = Some (Str ''connecting'')"
proof -
  have rec: "map_of (botStatus fleet) ''e1'' = Some loadedStatus"
    by (simp add: fleet_def loadBots_def loadBot_def newManager_def e1_def)
  from updateStatus_merges [OF rec, of "[''status'' \<mapsto> Str ''connecting'']"]
  obtain new where
    "map_of (botStatus (updateStatus ''e1'' [''status'' \<mapsto> Str ''connecting''] fleet)) ''e1''
       = Some new"
    "\<forall>k. new k = (if k \<in> dom [''status'' \<mapsto> Str ''connecting'']
                    then [''status'' \<mapsto> Str ''connecting''] k else loadedStatus k)"
    by blast
  then show ?thesis using rec by (simp add: statusField_def loadedStatus_def)
qed

section \<open>Manual stop and shutdown\<close>

text \<open>
  What \<open>stopBot\<close> achieves when a bot object is registered: the object is marked and
  dropped, and no handler of a marked object schedules a reconnect.
\<close>

lemma stopBot_marks_registered:
  assumes "map_of (bots m) b = Some r" and "heap m r = Some obj"
  shows "heap (snd (stopBot b outcome m)) r = Some (obj\<lparr> manuallyStopped := True \<rparr>) \<and>
         map_of (bots (snd (stopBot b QuitReturns m))) b = None \<and>
         reconnectTimers (snd (stopBot b outcome m)) b = None \<and>
         reconnectAttempts (snd (stopBot b outcome m)) b = Some 0"
  using assms
  by (cases outcome)
     (auto simp add: stopBot_def cleanupBot_def cancelReconnect_def setStopped_def emitLog_def
      clearTimer_def Let_def delete_conv' split: option.splits)

lemma stopped_session_schedules_nothing:
  assumes "heap m r = Some obj" and "manuallyStopped obj"
  shows "reconnectTimers (onKicked r reason m) = reconnectTimers m \<and>
         reconnectTimers (onError r e m) = reconnectTimers m \<and>
         reconnectTimers (onEnd r why m) = reconnectTimers m"
  using assms by (simp add: onKicked_def onError_def onEnd_def Let_def)

text \<open>A second \<open>shutdownAll\<close> only writes its log line.\<close>

lemma shutdownAll_twice:
  "shutdownAll (shutdownAll m) = emitLog ''system'' Info ShuttingDown (shutdownAll m)"
  by (simp add: shutdownAll_def emitLog_def Let_def)

text \<open>
  C3, at a failing run. The bot \<open>e1\<close> is started and kicked: a reconnect is scheduled and
  the bot object leaves the registry. \<open>stopBot\<close> then cancels the reconnect, but finds no
  registered object on which to set \<open>manuallyStopped\<close>. When the \<open>end\<close> event of the same
  session arrives afterwards, its handler schedules a reconnect (7500 ms), and the timeout
  starts a new bot object although no start was requested. Also, \<open>stopBot\<close> on a
  registered bot leaves the recorded state as it was (here connecting), and a late \<open>error\<close>
  event of the stopped session sets it to error.
\<close>

theorem stop_then_late_end_reconnects:
  "pendingReconnect (run [Start e1 Created, EvKicked 0 ''bye'', Stop ''e1'' QuitReturns] fleet) ''e1'' = None \<and>
   pendingReconnect (run [Start e1 Created, EvKicked 0 ''bye'', Stop ''e1'' QuitReturns, EvEnd 0 None] fleet) ''e1''
     = Some 7500 \<and>
   map_of (bots (run [Start e1 Created, EvKicked 0 ''bye'', Stop ''e1'' QuitReturns, EvEnd 0 None,
                      Fire 1 accepting] fleet)) ''e1'' = Some 1 \<and>
   statusField (run [Start e1 Created, Stop ''e1'' QuitReturns] fleet) ''e1'' ''status''
     = Some (Str ''connecting'') \<and>
   statusField (run [Start e1 Created, Stop ''e1'' QuitReturns, EvError 0 ''reset''] fleet) ''e1'' ''status''
     = Some (Str ''error'')"
  by (simp add: model_defs)

text \<open>
  C4, at two failing runs. A bot whose connection failed has a reconnect pending and no
  registered object; \<open>shutdownAll\<close> walks the registry only, so the timeout stays and later
  starts a bot. A bot that is online is dropped by \<open>shutdownAll\<close> without its
  \<open>manuallyStopped\<close> flag being set, so the \<open>end\<close> event that follows the quit schedules a
  reconnect.
\<close>

theorem shutdownAll_keeps_reconnect:
  "pendingReconnect (run [Start e1 Created, EvError 0 ''refused'', ShutdownAll] fleet) ''e1''
     = Some 7500 \<and>
   map_of (bots (run [Start e1 Created, EvError 0 ''refused'', ShutdownAll, Fire 0 accepting]
                   fleet)) ''e1'' = Some 1 \<and>
   pendingReconnect (run [Start e1 Created, EvSpawn 0 Null Null Null, ShutdownAll] fleet) ''e1''
     = None \<and>
   pendingReconnect (run [Start e1 Created, EvSpawn 0 Null Null Null, ShutdownAll, EvEnd 0 None]
                       fleet) ''e1'' = Some 7500"
  by (simp add: model_defs)

section \<open>Starting a bot that is registered\<close>

lemma cancelReconnect_idle: "reconnectTimers m b = None \<Longrightarrow> cancelReconnect b m = m"
  by (simp add: cancelReconnect_def)

lemma startBot_registered:
  assumes "wellFormed m" and "map_of (bots m) (cfg_id cfg) \<noteq> None"
  shows "startBot cfg outcome m = emitLog (cfg_id cfg) Warn AlreadyRunning m"
proof -
  have "reconnectTimers m (cfg_id cfg) = None"
    using assms by (simp add: wellFormed_def)
  then have "cancelReconnect (cfg_id cfg) m = m" by (rule cancelReconnect_idle)
  then show ?thesis using assms(2) by (simp add: startBot_def Let_def)
qed

text \<open>
  What the guard of \<open>startBot\<close> achieves: in every state the manager can reach,
  \<open>startBot\<close> for an id that has a registered bot object changes nothing but the log, to
  which it adds the warning.
\<close>

lemma startBot_registered_only_logs:
  assumes "reachable m" and "map_of (bots m) (cfg_id cfg) \<noteq> None"
  shows "startBot cfg outcome m = emitLog (cfg_id cfg) Warn AlreadyRunning m"
  using startBot_registered [OF reachable_wellFormed [OF assms(1)] assms(2)] .

text \<open>
  C5, at two failing runs. The handlers of \<open>error\<close>, \<open>kicked\<close> and \<open>end\<close> call
  \<open>cleanupBot\<close>, which removes whatever bot object is registered under the id and never
  calls \<open>quit\<close> on it, and the guard of \<open>startBot\<close> looks at the registry only.

  First run: the bot object 0 of \<open>e1\<close> reports an error and then spawns. The recorded state
  is online, object 0 was neither quit nor ended, and nothing is registered; \<open>startBot\<close>
  (called directly, or by the reconnect timeout 0 that the error scheduled) creates a
  second object, 1.

  Second run: \<open>e1\<close> is started, stopped and started again, and then the \<open>end\<close> event of the
  stopped object 0 arrives. Its handler removes object 1, which was neither quit nor ended,
  from the registry; the next \<open>startBot\<close> creates a third object, 2, beside it.
\<close>

theorem startBot_adds_second_object:
  "statusField (run [Start e1 Created, EvError 0 ''parse'', EvSpawn 0 Null Null Null] fleet)
     ''e1'' ''status'' = Some (Str ''online'') \<and>
   map_option manuallyStopped
     (heap (run [Start e1 Created, EvError 0 ''parse'', EvSpawn 0 Null Null Null] fleet) 0)
     = Some False \<and>
   map_of (bots (run [Start e1 Created, EvError 0 ''parse'', EvSpawn 0 Null Null Null] fleet))
     ''e1'' = None \<and>
   map_of (bots (run [Start e1 Created, EvError 0 ''parse'', EvSpawn 0 Null Null Null,
                      Start e1 Created] fleet)) ''e1'' = Some 1 \<and>
   map_of (bots (run [Start e1 Created, EvError 0 ''parse'', EvSpawn 0 Null Null Null,
                      Fire 0 accepting] fleet)) ''e1'' = Some 1 \<and>
   map_of (bots (run [Start e1 Created, Stop ''e1'' QuitReturns, Start e1 Created] fleet))
     ''e1'' = Some 1 \<and>
   map_of (bots (run [Start e1 Created, Stop ''e1'' QuitReturns, Start e1 Created,
                      EvEnd 0 None] fleet)) ''e1'' = None \<and>
   map_option manuallyStopped
     (heap (run [Start e1 Created, Stop ''e1'' QuitReturns, Start e1 Created,
                 EvEnd 0 None] fleet) 1) = Some False \<and>
   map_of (bots (run [Start e1 Created, Stop ''e1'' QuitReturns, Start e1 Created,
                      EvEnd 0 None, Start e1 Created] fleet)) ''e1'' = Some 2 \<and>
   map_option botId
     (heap (run [Start e1 Created, Stop ''e1'' QuitReturns, Start e1 Created,
                 EvEnd 0 None, Start e1 Created] fleet) 1) = Some ''e1''"
  by (simp add: model_defs)

section \<open>The state after a disconnect\<close>

text \<open>
  C6, as stated, makes the state Error after a kick that carries a reason. The \<open>kicked\<close>
  handler records offline, with the reason in \<open>lastError\<close>.
\<close>

theorem kicked_with_reason_counterexample:
  "statusField (run [Start e1 Created, EvSpawn 0 Null Null Null, EvKicked 0 ''banned''] fleet)
     ''e1'' ''status'' = Some (Str ''offline'') \<and>
   statusField (run [Start e1 Created, EvSpawn 0 Null Null Null, EvKicked 0 ''banned''] fleet)
     ''e1'' ''status'' \<noteq> Some (Str ''error'') \<and>
   statusField (run [Start e1 Created, EvSpawn 0 Null Null Null, EvKicked 0 ''banned''] fleet)
     ''e1'' ''lastError'' = Some (Str ''Kicked: banned'')"
  by (simp add: model_defs)

text \<open>
  C6 (amended): for every event of a bot object, an \<open>error\<close> event leaves the state error
  with \<open>lastError\<close> the error's message; a \<open>kicked\<close> event leaves the state offline with
  \<open>lastError\<close> the text \<open>Kicked:\<close> followed by the reason; an \<open>end\<close> event leaves the state
  offline and \<open>lastError\<close> as it was, with or without a reason.
\<close>

theorem disconnect_status:
  assumes "heap m r = Some obj"
  shows "statusField (onError r e m) (botId obj) ''status'' = Some (Str ''error'') \<and>
         statusField (onError r e m) (botId obj) ''lastError'' = Some (Str e) \<and>
         statusField (onKicked r reason m) (botId obj) ''status'' = Some (Str ''offline'') \<and>
         statusField (onKicked r reason m) (botId obj) ''lastError''
           = Some (Str (''Kicked: '' @ reason)) \<and>
         statusField (onEnd r why m) (botId obj) ''status'' = Some (Str ''offline'') \<and>
         statusField (onEnd r why m) (botId obj) ''lastError''
           = statusField m (botId obj) ''lastError''"
proof -
  have frame: "statusField (cleanupBot b True (if c then scheduleReconnect b cfgOpt m' else m')) b k
                 = statusField m' b k" for b c cfgOpt m' k
    by (simp add: statusField_def)
  show ?thesis
    using assms
    by (simp add: onError_def onKicked_def onEnd_def Let_def frame statusField_updateStatus)
       (simp add: statusField_def defaultStatus_def split: option.splits)
qed

theorem disconnect_status_witness:
  "heap (run [Start e1 Created] fleet) 0 =
     Some \<lparr> botId = ''e1'', botConfig = e1, manuallyStopped = False, spawnListener = True \<rparr> \<and>
   statusField (onError 0 ''refused'' (run [Start e1 Created] fleet)) ''e1'' ''status''
     = Some (Str ''error'') \<and>
   statusField (onKicked 0 ''banned'' (run [Start e1 Created] fleet)) ''e1'' ''status''
     = Some (Str ''offline'') \<and>
   statusField (onEnd 0 (Some ''socketClosed'') (run [Start e1 Created] fleet)) ''e1'' ''lastError''
     = Some Null"
proof -
  have h: "heap (run [Start e1 Created] fleet) 0 =
     Some \<lparr> botId = ''e1'', botConfig = e1, manuallyStopped = False, spawnListener = True \<rparr>"
    by (simp add: model_defs)
  have old: "statusField (run [Start e1 Created] fleet) ''e1'' ''lastError'' = Some Null"
    by (simp add: model_defs)
  show ?thesis
    using h old disconnect_status [OF h, of "''refused''" "''banned''" "Some ''socketClosed''"]
    by simp
qed

section \<open>Sending\<close>

text \<open>
  C7, as stated, lets \<open>sendMessage\<close> transmit exactly when the bot is online. A bot that
  is still connecting has a registered object, and the message is handed to it and
  reported as delivered.
\<close>

theorem send_while_connecting_counterexample:
  "statusField (run [Start e1 Created] fleet) ''e1'' ''status'' = Some (Str ''connecting'') \<and>
   fst (sendMessage ''e1'' ''hi'' ChatOk (run [Start e1 Created] fleet)) \<and>
   getQueue (snd (sendMessage ''e1'' ''hi'' ChatOk (run [Start e1 Created] fleet))) ''e1'' = []"
  by (simp add: model_defs)

text \<open>
  C7 (amended): \<open>sendMessage\<close> reports delivery exactly when a bot object is registered
  for the id and its \<open>chat\<close> method exists and returns, whatever the recorded state; in
  every other case (no registered object, no \<open>chat\<close> method, or \<open>chat\<close> throws) the
  message is appended to the queue of the id and the result is the queued one, and nothing
  is raised. In every reachable state whose recorded state is neither connecting nor
  online (offline, error, or none recorded) the result is the queued one.
\<close>

theorem sendMessage_delivery:
  "(fst (sendMessage b message outcome m) \<longleftrightarrow> map_of (bots m) b \<noteq> None \<and> outcome = ChatOk) \<and>
   getQueue (snd (sendMessage b message outcome m)) b =
     (if fst (sendMessage b message outcome m) then getQueue m b else getQueue m b @ [message]) \<and>
   (reachable m \<and> statusField m b ''status'' \<noteq> Some (Str ''connecting'') \<and>
      statusField m b ''status'' \<noteq> Some (Str ''online'')
    \<longrightarrow> \<not> fst (sendMessage b message outcome m))"
proof -
  have "map_of (bots m) b = None"
    if "reachable m" "statusField m b ''status'' \<noteq> Some (Str ''connecting'')"
       "statusField m b ''status'' \<noteq> Some (Str ''online'')"
    using reachable_wellFormed [OF that(1)] that(2,3) unfolding wellFormed_def by blast
  then show ?thesis
    by (cases outcome) (auto simp add: sendMessage_def Let_def getQueue_def emitLog_def)
qed

theorem sendMessage_delivery_witness:
  "reachable fleet \<and> statusField fleet ''e1'' ''status'' = Some (Str ''offline'') \<and>
   \<not> fst (sendMessage ''e1'' ''hi'' ChatOk fleet) \<and>
   getQueue (snd (sendMessage ''e1'' ''hi'' ChatOk fleet)) ''e1'' = [''hi'']"
proof -
  have r: "reachable fleet" unfolding fleet_def by (rule reachable.loaded)
  have st: "statusField fleet ''e1'' ''status'' = Some (Str ''offline'')"
    by (simp add: model_defs)
  have q: "getQueue fleet ''e1'' = []" by (simp add: model_defs)
  show ?thesis
    using r st q sendMessage_delivery [of "''e1''" "''hi''" ChatOk fleet] by auto
qed

section \<open>Status queries\<close>

lemma fold_objAssign_lookup:
  assumes "distinct (map fst xs)" and "b \<noteq> ''__proto__''"
  shows "map_of (fold (\<lambda>(b, s). objAssign b s) xs acc) b =
           (case map_of xs b of Some s \<Rightarrow> Some s | None \<Rightarrow> map_of acc b)"
  using assms
proof (induction xs arbitrary: acc)
  case Nil
  then show ?case by simp
next
  case (Cons x xs)
  obtain k v where x: "x = (k, v)" by (cases x)
  have "map_of xs k = None" using Cons.prems(1) x by (simp add: map_of_eq_None_iff)
  then show ?case using Cons x
    by (auto simp add: objAssign_def update_conv' split: option.splits)
qed

text \<open>\<open>getBotStatus\<close> returns the recorded status, and the default record when there is none.\<close>

lemma getBotStatus_cases:
  "(map_of (botStatus m) b = None \<longrightarrow> getBotStatus m b = [''status'' \<mapsto> Str ''offline'']) \<and>
   (map_of (botStatus m) b = Some s \<longrightarrow> getBotStatus m b = s)"
  by (simp add: getBotStatus_def)

text \<open>For every id but \<open>__proto__\<close> the result of \<open>getAllBotStatuses\<close> has the recorded status.\<close>

lemma getAllBotStatuses_other:
  "reachable m \<Longrightarrow> b \<noteq> ''__proto__'' \<Longrightarrow> map_of (getAllBotStatuses m) b = map_of (botStatus m) b"
  using fold_objAssign_lookup [of "botStatus m" b "[]"] wellFormed_distinct [OF reachable_wellFormed, of m]
  by (simp add: getAllBotStatuses_def split: option.splits)

text \<open>
  C10, at a failing input. A bot whose id is the string \<open>__proto__\<close> is started, so a
  status is recorded for it and \<open>getBotStatus\<close> returns that record. The object returned
  by \<open>getAllBotStatuses\<close> has no own property for the id (here it has none at all).
\<close>

theorem getAllBotStatuses_misses_proto:
  "getBotStatus (run [Start protoBot Created] newManager) ''__proto__'' ''status''
     = Some (Str ''connecting'') \<and>
   map_of (botStatus (run [Start protoBot Created] newManager)) ''__proto__'' \<noteq> None \<and>
   map_of (getAllBotStatuses (run [Start protoBot Created] newManager)) ''__proto__'' = None \<and>
   getAllBotStatuses (run [Start protoBot Created] newManager) = []"
  by (simp add: model_defs protoBot_def getBotStatus_def objAssign_def getAllBotStatuses_def)

section \<open>Flushing the queue on spawn\<close>

lemma fold_setTimer_queue:
  "nextTimer (fold (\<lambda>(i, message). setTimer (1000 * of_nat i) (TQueued b message))
                (enumerate k xs) m) = nextTimer m + length xs \<and>
   timers (fold (\<lambda>(i, message). setTimer (1000 * of_nat i) (TQueued b message))
                (enumerate k xs) m) t =
     (if nextTimer m \<le> t \<and> t < nextTimer m + length xs
      then Some \<lparr> delay = 1000 * of_nat (k + (t - nextTimer m)),
                  action = TQueued b (xs ! (t - nextTimer m)) \<rparr>
      else timers m t) \<and>
   messageQueue (fold (\<lambda>(i, message). setTimer (1000 * of_nat i) (TQueued b message))
                (enumerate k xs) m) = messageQueue m \<and>
   heap (fold (\<lambda>(i, message). setTimer (1000 * of_nat i) (TQueued b message))
                (enumerate k xs) m) = heap m"
proof (induction xs arbitrary: k m)
  case Nil
  then show ?case by auto
next
  case (Cons x xs)
  show ?case
    using Cons.IH [of "Suc k" "setTimer (1000 * of_nat k) (TQueued b x) m"]
    by (auto simp add: setTimer_def nth_Cons' Suc_diff_le)
qed

lemma queued_block:
  assumes "\<And>j. j < length xs \<Longrightarrow>
             timers m' (n + j) = Some \<lparr> delay = 1000 * of_nat (k + j), action = TQueued b (xs ! j) \<rparr>"
  shows "concat (map (\<lambda>t. queuedSend b (timers m' t)) [n ..< n + length xs]) =
           map (\<lambda>(i, message). (1000 * of_nat i, message)) (enumerate k xs)"
  using assms
proof (induction xs arbitrary: n k)
  case Nil
  then show ?case by simp
next
  case (Cons x xs)
  have hd: "timers m' n = Some \<lparr> delay = 1000 * of_nat k, action = TQueued b x \<rparr>"
    using Cons.prems [of 0] by simp
  have tl: "timers m' (Suc n + j) = Some \<lparr> delay = 1000 * of_nat (Suc k + j),
                                            action = TQueued b (xs ! j) \<rparr>"
    if "j < length xs" for j
    using Cons.prems [of "Suc j"] that by simp
  have "concat (map (\<lambda>t. queuedSend b (timers m' t)) [n ..< n + length (x # xs)]) =
          queuedSend b (timers m' n) @
          concat (map (\<lambda>t. queuedSend b (timers m' t)) [Suc n ..< Suc n + length xs])"
    by (subst upt_rec) (simp del: upt_Suc)
  then show ?case using Cons.IH [of "Suc n" "Suc k", OF tl] hd by (simp del: upt_Suc)
qed

lemma flush_processMessageQueue:
  assumes le: "nextTimer m \<le> nextTimer m4"
    and prefix: "\<And>t. nextTimer m \<le> t \<Longrightarrow> t < nextTimer m4 \<Longrightarrow> queuedSend b (timers m4 t) = []"
  shows "scheduledSends b m (processMessageQueue b m4) =
           map (\<lambda>(i, message). (1000 * of_nat i, message)) (enumerate 0 (getQueue m4 b)) \<and>
         getQueue (processMessageQueue b m4) b = [] \<and>
         heap (processMessageQueue b m4) = heap m4"
proof (cases "getQueue m4 b = []")
  case True
  then have same: "processMessageQueue b m4 = m4" by (simp add: processMessageQueue_def)
  have "concat (map (\<lambda>t. queuedSend b (timers m4 t)) [nextTimer m ..< nextTimer m4]) = []"
    using prefix by simp
  then show ?thesis using True by (simp add: same scheduledSends_def)
next
  case False
  let ?q = "getQueue m4 b"
  let ?m1 = "emitLog b Info (Processing (length ?q)) m4"
  let ?m2 = "fold (\<lambda>(index, message). setTimer (1000 * of_nat index) (TQueued b message))
               (enumerate 0 ?q) ?m1"
  let ?m' = "processMessageQueue b m4"
  have m': "?m' = ?m2\<lparr> messageQueue := (messageQueue ?m2)(b \<mapsto> []) \<rparr>"
    using False by (simp add: processMessageQueue_def Let_def)
  have n1: "nextTimer ?m1 = nextTimer m4" and t1: "timers ?m1 = timers m4"
    and h1: "heap ?m1 = heap m4"
    by (simp_all add: emitLog_def)
  note fq = fold_setTimer_queue [of b 0 ?q ?m1]
  have n': "nextTimer ?m' = nextTimer m4 + length ?q"
    using fq by (simp add: m' n1)
  have t': "timers ?m' t =
     (if nextTimer m4 \<le> t \<and> t < nextTimer m4 + length ?q
      then Some \<lparr> delay = 1000 * of_nat (0 + (t - nextTimer m4)),
                  action = TQueued b (?q ! (t - nextTimer m4)) \<rparr>
      else timers m4 t)" for t
    using fold_setTimer_queue [of b 0 ?q ?m1 t] by (simp add: m' n1 t1)
  have split: "[nextTimer m ..< nextTimer m4 + length ?q] =
                 [nextTimer m ..< nextTimer m4] @ [nextTimer m4 ..< nextTimer m4 + length ?q]"
    using le by (rule upt_add_eq_append)
  have before: "concat (map (\<lambda>t. queuedSend b (timers ?m' t)) [nextTimer m ..< nextTimer m4]) = []"
    using prefix by (simp add: t')
  have block: "concat (map (\<lambda>t. queuedSend b (timers ?m' t))
                  [nextTimer m4 ..< nextTimer m4 + length ?q]) =
               map (\<lambda>(i, message). (1000 * of_nat i, message)) (enumerate 0 ?q)"
    by (rule queued_block) (simp add: t')
  have "scheduledSends b m ?m' =
          map (\<lambda>(i, message). (1000 * of_nat i, message)) (enumerate 0 ?q)"
    unfolding scheduledSends_def n' split using before block by simp
  moreover have "getQueue ?m' b = []" by (simp add: m' getQueue_def)
  moreover have "heap ?m' = heap m4" using fq by (simp add: m' h1)
  ultimately show ?thesis by simp
qed

lemma spawn_prefix:
  assumes "m4 = startKeepAlive b (setTimer 5000 (TAuthRegister b r cfg)
                  (updateStatus b u (emitLog b l x m0)))"
  shows "nextTimer m0 \<le> nextTimer m4"
    and "nextTimer m0 \<le> t \<Longrightarrow> t < nextTimer m4 \<Longrightarrow> queuedSend b (timers m4 t) = []"
    and "getQueue m4 b = getQueue m0 b"
    and "heap m4 = heap m0"
    and "u ''status'' \<noteq> None \<Longrightarrow> statusField m4 b ''status'' = u ''status''"
  unfolding assms
  by (auto simp add: startKeepAlive_def setTimer_def clearTimer_def updateStatus_def emitLog_def
      getQueue_def statusField_def update_conv' map_add_def Let_def less_Suc_eq
      split: option.splits)

text \<open>
  C8: when the \<open>spawn\<close> event of a bot object arrives and its \<open>once\<close> listener is still
  registered, the handler records the state online and, in the same call, sets one send
  timeout per message that is in the queue of the bot, in queue order, the message at
  position \<open>i\<close> with delay \<open>1000 * i\<close> ms; the queue is empty when the handler returns,
  while all those timeouts are still pending. A further \<open>spawn\<close> event of the same object
  does nothing.
\<close>

theorem spawn_flushes_queue_once:
  assumes "heap m r = Some obj" and "spawnListener obj"
  shows "statusField (onSpawn r now dm pos m) (botId obj) ''status'' = Some (Str ''online'') \<and>
         scheduledSends (botId obj) m (onSpawn r now dm pos m) =
           map (\<lambda>(i, message). (1000 * of_nat i, message)) (enumerate 0 (getQueue m (botId obj))) \<and>
         getQueue (onSpawn r now dm pos m) (botId obj) = [] \<and>
         onSpawn r now' dm' pos' (onSpawn r now dm pos m) = onSpawn r now dm pos m"
proof -
  let ?b = "botId obj"
  let ?m0 = "m\<lparr> heap := (heap m)(r \<mapsto> obj\<lparr> spawnListener := False \<rparr>) \<rparr>"
  let ?u = "[''status'' \<mapsto> Str ''online'', ''connectedSince'' \<mapsto> now, ''world'' \<mapsto> dm,
             ''dimension'' \<mapsto> dm, ''position'' \<mapsto> pos]"
  let ?m4 = "startKeepAlive ?b (setTimer 5000 (TAuthRegister ?b r (botConfig obj))
               (updateStatus ?b ?u (emitLog ?b Info Spawned ?m0)))"
  have eq: "onSpawn r now dm pos m = processMessageQueue ?b ?m4"
    using assms by (simp add: onSpawn_def Let_def)
  note pre = spawn_prefix [of ?m4 ?b r "botConfig obj" ?u Info Spawned ?m0, OF refl]
  have le: "nextTimer m \<le> nextTimer ?m4" using pre(1) by simp
  have none: "queuedSend ?b (timers ?m4 t) = []" if "nextTimer m \<le> t" "t < nextTimer ?m4" for t
    using pre(2) [of t] that by simp
  note fl = flush_processMessageQueue [of m ?m4 ?b, OF le none]
  have q: "getQueue ?m4 ?b = getQueue m ?b" using pre(3) by (simp add: getQueue_def)
  have st: "statusField (processMessageQueue ?b ?m4) ?b ''status'' = Some (Str ''online'')"
    using pre(5) by (simp add: statusField_def)
  have "heap (processMessageQueue ?b ?m4) r = Some (obj\<lparr> spawnListener := False \<rparr>)"
    using fl pre(4) by simp
  then have again: "onSpawn r now' dm' pos' (processMessageQueue ?b ?m4) = processMessageQueue ?b ?m4"
    by (simp add: onSpawn_def)
  show ?thesis unfolding eq using fl q st again by simp
qed

theorem spawn_flushes_queue_once_witness:
  "heap (run [Send ''e1'' ''a'' NoChat, Send ''e1'' ''b'' NoChat, Start e1 Created] fleet) 0 =
     Some \<lparr> botId = ''e1'', botConfig = e1, manuallyStopped = False, spawnListener = True \<rparr> \<and>
   getQueue (run [Send ''e1'' ''a'' NoChat, Send ''e1'' ''b'' NoChat, Start e1 Created] fleet) ''e1''
     = [''a'', ''b''] \<and>
   scheduledSends ''e1''
     (run [Send ''e1'' ''a'' NoChat, Send ''e1'' ''b'' NoChat, Start e1 Created] fleet)
     (onSpawn 0 Null Null Null
        (run [Send ''e1'' ''a'' NoChat, Send ''e1'' ''b'' NoChat, Start e1 Created] fleet))
     = [(0, ''a''), (1000, ''b'')] \<and>
   getQueue (onSpawn 0 Null Null Null
        (run [Send ''e1'' ''a'' NoChat, Send ''e1'' ''b'' NoChat, Start e1 Created] fleet)) ''e1'' = []"
proof -
  let ?m = "run [Send ''e1'' ''a'' NoChat, Send ''e1'' ''b'' NoChat, Start e1 Created] fleet"
  have h: "heap ?m 0 =
     Some \<lparr> botId = ''e1'', botConfig = e1, manuallyStopped = False, spawnListener = True \<rparr>"
    by (simp add: model_defs)
  have q: "getQueue ?m ''e1'' = [''a'', ''b'']" by (simp add: model_defs)
  show ?thesis
    using h q spawn_flushes_queue_once [OF h, of Null Null Null] by simp
qed

section \<open>Consecutive connect failures\<close>

text \<open>
  C1, as stated, gives the delays 5 s, 7.5 s and 11.25 s for three consecutive connect
  failures. When the client constructor throws each time, the delays are 7.5 s, 11.25 s and
  16.875 s. When the constructor returns and the connection fails with an \<open>error\<close> event
  each time, every delay is 7.5 s.
\<close>

theorem three_failures_counterexample:
  "pendingReconnect (run [Start e1 (CreateThrows ''refused'')] fleet) ''e1'' = Some 7500 \<and>
   pendingReconnect (run [Start e1 (CreateThrows ''refused'')] fleet) ''e1'' \<noteq> Some 5000 \<and>
   pendingReconnect (run [Start e1 (CreateThrows ''refused''), Fire 0 (throwing ''refused'')] fleet) ''e1''
     = Some 11250 \<and>
   pendingReconnect (run [Start e1 (CreateThrows ''refused''), Fire 0 (throwing ''refused''),
                          Fire 1 (throwing ''refused'')] fleet) ''e1'' = Some 16875 \<and>
   pendingReconnect (run [Start e1 Created, EvError 0 ''refused''] fleet) ''e1'' = Some 7500 \<and>
   pendingReconnect (run [Start e1 Created, EvError 0 ''refused'', Fire 0 accepting,
                          EvError 1 ''refused''] fleet) ''e1'' = Some 7500 \<and>
   pendingReconnect (run [Start e1 Created, EvError 0 ''refused'', Fire 0 accepting,
                          EvError 1 ''refused'', Fire 1 accepting, EvError 2 ''refused''] fleet) ''e1''
     = Some 7500"
  by (simp add: model_defs throwing_def)

lemma reconnectDelay_capped: 
  assumes "11 \<le> n" shows "reconnectDelay n = 300000"
proof -
  have "(3 / 2 :: rat) ^ 11 \<le> (3 / 2) ^ n"
    using assms by (intro power_increasing) simp_all
  moreover have "(60 :: rat) \<le> (3 / 2) ^ 11" by (simp add: power_divide)
  ultimately have "(60 :: rat) \<le> (3 / 2) ^ n" by (rule order_trans [rotated])
  then show ?thesis by (simp add: reconnectDelay_def min_def)
qed

lemma failing_startBot:
  assumes "autoReconnect cfg" and "map_of (bots m) (cfg_id cfg) = None"
    and "(case reconnectAttempts m (cfg_id cfg) of Some n \<Rightarrow> n | None \<Rightarrow> 0) = n"
  shows "map_of (bots (startBot cfg (CreateThrows e) m)) (cfg_id cfg) = None \<and>
         reconnectAttempts (startBot cfg (CreateThrows e) m) (cfg_id cfg) = Some (Suc n) \<and>
         (\<exists>t. reconnectTimers (startBot cfg (CreateThrows e) m) (cfg_id cfg) = Some t \<and>
              timers (startBot cfg (CreateThrows e) m) t =
                Some \<lparr> delay = reconnectDelay (Suc n), action = TReconnect (cfg_id cfg) cfg \<rparr>)"
  using assms
  by (auto simp add: startBot_def scheduleReconnect_def registeredStopped_def autoReconnect_def
      cancelReconnect_def updateStatus_def emitLog_def setTimer_def clearTimer_def Let_def
      split: option.splits)

lemma retryFailing_state:
  assumes "autoReconnect cfg" and "map_of (bots m) (cfg_id cfg) = None"
    and "(case reconnectAttempts m (cfg_id cfg) of Some n \<Rightarrow> n | None \<Rightarrow> 0) = 0"
  shows "map_of (bots (retryFailing k cfg e m)) (cfg_id cfg) = None \<and>
         reconnectAttempts (retryFailing k cfg e m) (cfg_id cfg) = Some (Suc k) \<and>
         (\<exists>t. reconnectTimers (retryFailing k cfg e m) (cfg_id cfg) = Some t \<and>
              timers (retryFailing k cfg e m) t =
                Some \<lparr> delay = reconnectDelay (Suc k), action = TReconnect (cfg_id cfg) cfg \<rparr>)"
proof (induction k)
  case 0
  show ?case using failing_startBot [OF assms] by simp
next
  case (Suc k)
  let ?b = "cfg_id cfg"
  let ?m = "retryFailing k cfg e m"
  from Suc obtain t where un: "map_of (bots ?m) ?b = None"
    and at: "reconnectAttempts ?m ?b = Some (Suc k)"
    and rt: "reconnectTimers ?m ?b = Some t"
    and tm: "timers ?m t = Some \<lparr> delay = reconnectDelay (Suc k), action = TReconnect ?b cfg \<rparr>"
    by blast
  let ?m1 = "emitLog ?b Info AttemptReconnect (clearTimer t ?m)"
  have eq: "retryFailing (Suc k) cfg e m = startBot cfg (CreateThrows e) ?m1"
    using rt tm by (simp add: fire_def throwing_def)
  have "map_of (bots ?m1) ?b = None"
    and "(case reconnectAttempts ?m1 ?b of Some n \<Rightarrow> n | None \<Rightarrow> 0) = Suc k"
    using un at by (simp_all add: emitLog_def clearTimer_def)
  from failing_startBot [OF assms(1) this] show ?case unfolding eq .
qed

text \<open>
  C1 (amended): for a bot with auto-reconnect enabled, no registered object and an attempt
  count of 0, consecutive connect failures in which the client constructor throws (each
  failure scheduling a reconnect, each reconnect timeout calling \<open>startBot\<close> again) schedule
  the delays \<open>min(300000, 5000 * 1.5^n)\<close> ms for \<open>n = 1, 2, 3, \<dots>\<close>: 7.5 s, 11.25 s and
  16.875 s for the first three, and 300 s from the eleventh failure on.
\<close>

theorem throwing_failures_back_off:
  assumes "autoReconnect cfg" and "map_of (bots m) (cfg_id cfg) = None"
    and "(case reconnectAttempts m (cfg_id cfg) of Some n \<Rightarrow> n | None \<Rightarrow> 0) = 0"
  shows "pendingReconnect (retryFailing k cfg e m) (cfg_id cfg) = Some (reconnectDelay (Suc k)) \<and>
         pendingReconnect (retryFailing 0 cfg e m) (cfg_id cfg) = Some 7500 \<and>
         pendingReconnect (retryFailing 1 cfg e m) (cfg_id cfg) = Some 11250 \<and>
         pendingReconnect (retryFailing 2 cfg e m) (cfg_id cfg) = Some 16875 \<and>
         (10 \<le> k \<longrightarrow> pendingReconnect (retryFailing k cfg e m) (cfg_id cfg) = Some 300000)"
proof -
  have pend: "pendingReconnect (retryFailing j cfg e m) (cfg_id cfg) = Some (reconnectDelay (Suc j))"
    for j
    using retryFailing_state [OF assms, of j e] by (auto simp add: pendingReconnect_def)
  have "reconnectDelay (Suc 0) = 7500" "reconnectDelay (Suc 1) = 11250"
    "reconnectDelay (Suc 2) = 16875"
    by (simp_all add: reconnectDelay_def power_divide)
  moreover have "reconnectDelay (Suc k) = 300000" if "10 \<le> k"
    using that by (intro reconnectDelay_capped) simp
  ultimately show ?thesis using pend [of k] pend [of 0] pend [of 1] pend [of 2] by simp
qed

theorem throwing_failures_back_off_witness:
  "autoReconnect e1 \<and> map_of (bots fleet) ''e1'' = None \<and>
   reconnectAttempts fleet ''e1'' = Some 0 \<and>
   pendingReconnect (retryFailing 0 e1 ''refused'' fleet) ''e1'' = Some 7500 \<and>
   pendingReconnect (retryFailing 2 e1 ''refused'' fleet) ''e1'' = Some 16875 \<and>
   pendingReconnect (retryFailing 10 e1 ''refused'' fleet) ''e1'' = Some 300000"
proof -
  have a: "autoReconnect e1" by (simp add: autoReconnect_def e1_def)
  have b: "map_of (bots fleet) (cfg_id e1) = None" by (simp add: model_defs)
  have c: "reconnectAttempts fleet ''e1'' = Some 0" by (simp add: model_defs)
  have c': "(case reconnectAttempts fleet (cfg_id e1) of Some n \<Rightarrow> n | None \<Rightarrow> 0) = 0"
    using c by (simp add: e1_def)
  have id: "cfg_id e1 = ''e1''" by (simp add: e1_def)
  have le: "(10::nat) \<le> 10" by simp
  note th = throwing_failures_back_off [OF a b c', of 10 "''refused''", unfolded id]
  show ?thesis
    using a b [unfolded id] c th le by blast
qed

end
